theory Spec2Isabelle
  imports Main
begin

section \<open>Shared travel planner: data model\<close>

text \<open>
  The tables of \<^verbatim>\<open>app/models.py\<close> and the request and response schemas of
  \<^verbatim>\<open>app/schemas.py\<close>. A Python class becomes a record whose fields carry the class
  name as a prefix (\<^verbatim>\<open>Trip.owner_id\<close> is \<open>Trip_owner_id\<close>). Python integers are
  \<open>int\<close>. A \<^verbatim>\<open>date\<close> and a \<^verbatim>\<open>datetime\<close> are kept abstract as a number; no function
  of the program computes with them. The primary key of a stored row is never
  \<^verbatim>\<open>None\<close>, so the \<open>id\<close> of a row is an \<open>int\<close>. The ORM relationship attributes
  (\<^verbatim>\<open>Trip.flights\<close>, \<^verbatim>\<open>User.trips\<close>, ...) are views of the foreign keys and are not
  read by any handler; they are not fields of the records.
\<close>

type_synonym date = int
type_synonym datetime = int

record TripShare =
  TripShare_trip_id :: int
  TripShare_user_id :: int
  TripShare_created_at :: datetime

record User =
  User_id :: int
  User_email :: string
  User_hashed_password :: string
  User_created_at :: datetime

record Trip =
  Trip_id :: int
  Trip_name :: string
  Trip_owner_id :: int
  Trip_start_date :: "date option"
  Trip_end_date :: "date option"
  Trip_created_at :: datetime

record Flight =
  Flight_id :: int
  Flight_trip_id :: int
  Flight_airline :: string
  Flight_departure_airport :: string
  Flight_arrival_airport :: string
  Flight_departure_time :: datetime
  Flight_arrival_time :: datetime

record Hotel =
  Hotel_id :: int
  Hotel_trip_id :: int
  Hotel_name :: string
  Hotel_city :: string
  Hotel_check_in :: date
  Hotel_check_out :: date

subsection \<open>Schemas\<close>

record UserCreate =
  UserCreate_email :: string
  UserCreate_password :: string

record OAuth2PasswordRequestForm =
  form_username :: string
  form_password :: string

record Token =
  Token_access_token :: string
  Token_token_type :: string

record UserRead =
  UserRead_id :: int
  UserRead_email :: string

record FlightCreate =
  FlightCreate_airline :: string
  FlightCreate_departure_airport :: string
  FlightCreate_arrival_airport :: string
  FlightCreate_departure_time :: datetime
  FlightCreate_arrival_time :: datetime

record HotelCreate =
  HotelCreate_name :: string
  HotelCreate_city :: string
  HotelCreate_check_in :: date
  HotelCreate_check_out :: date

record TripCreate =
  TripCreate_name :: string
  TripCreate_start_date :: "date option"
  TripCreate_end_date :: "date option"
  TripCreate_flights :: "FlightCreate list"
  TripCreate_hotels :: "HotelCreate list"

record FlightRead =
  FlightRead_id :: int
  FlightRead_airline :: string
  FlightRead_departure_airport :: string
  FlightRead_arrival_airport :: string
  FlightRead_departure_time :: datetime
  FlightRead_arrival_time :: datetime

record HotelRead =
  HotelRead_id :: int
  HotelRead_name :: string
  HotelRead_city :: string
  HotelRead_check_in :: date
  HotelRead_check_out :: date

record TripRead =
  TripRead_name :: string
  TripRead_start_date :: "date option"
  TripRead_end_date :: "date option"
  TripRead_id :: int
  TripRead_owner_id :: int
  TripRead_flights :: "FlightRead list"
  TripRead_hotels :: "HotelRead list"
  TripRead_shared_with_user_ids :: "int list"

record ShareRequest =
  ShareRequest_email :: string

text \<open>
  The validator of \<^verbatim>\<open>UserCreate\<close>: a password shorter than 8 characters is refused
  when the request body is parsed, before \<^verbatim>\<open>register\<close> runs.
\<close>

definition password_length :: "string \<Rightarrow> string option" where
  "password_length v = (if length v < 8 then None else Some v)"

subsection \<open>Errors\<close>

text \<open>\<^verbatim>\<open>HTTPException(status_code=..., detail=...)\<close>: every \<^verbatim>\<open>raise\<close> of a handler.\<close>

datatype HTTPException = HTTPException (status_code: int) (detail: string)

definition HTTP_400_BAD_REQUEST :: int where "HTTP_400_BAD_REQUEST = 400"
definition HTTP_401_UNAUTHORIZED :: int where "HTTP_401_UNAUTHORIZED = 401"
definition HTTP_403_FORBIDDEN :: int where "HTTP_403_FORBIDDEN = 403"
definition HTTP_404_NOT_FOUND :: int where "HTTP_404_NOT_FOUND = 404"
definition HTTP_201_CREATED :: int where "HTTP_201_CREATED = 201"
definition HTTP_204_NO_CONTENT :: int where "HTTP_204_NO_CONTENT = 204"
definition HTTP_200_OK :: int where "HTTP_200_OK = 200"

text \<open>
  The status line of the response: the exception's code when the handler raised,
  the code of the route decorator (200 when it names none) when it returned.
\<close>

definition response_status :: "int \<Rightarrow> HTTPException + 'a \<Rightarrow> int" where
  "response_status route_status r =
     (case r of Inl e \<Rightarrow> status_code e | Inr _ \<Rightarrow> route_status)"

subsection \<open>The store\<close>

text \<open>
  The state of the database session: one list of rows per table, in insertion
  order. A handler that writes returns the store after its commits; a handler
  that raises before any \<^verbatim>\<open>session.add\<close> returns the store it was given.
\<close>

record store =
  user_table :: "User list"
  trip_table :: "Trip list"
  flight_table :: "Flight list"
  hotel_table :: "Hotel list"
  tripshare_table :: "TripShare list"

definition empty_store :: store where
  "empty_store = \<lparr>user_table = [], trip_table = [], flight_table = [],
     hotel_table = [], tripshare_table = []\<rparr>"

text \<open>
  The integer primary key the database gives a new row. The engine is set up in
  \<^verbatim>\<open>app/db.py\<close>, which is not among the sources; the key is modelled as one more
  than the largest key of the table, 1 in an empty table. No handler deletes a
  row or chooses a key itself.
\<close>

definition next_id :: "int list \<Rightarrow> int" where
  "next_id ids = fold max ids 0 + 1"

text \<open>\<^verbatim>\<open>session.get(Trip, trip_id)\<close>: the row with that primary key, or \<^verbatim>\<open>None\<close>.\<close>

definition session_get_Trip :: "store \<Rightarrow> int \<Rightarrow> Trip option" where
  "session_get_Trip s trip_id = find (\<lambda>t. Trip_id t = trip_id) (trip_table s)"

text \<open>\<^verbatim>\<open>session.exec(select(User).where(User.email == email)).first()\<close>\<close>

definition select_User_by_email :: "store \<Rightarrow> string \<Rightarrow> User option" where
  "select_User_by_email s email = find (\<lambda>u. User_email u = email) (user_table s)"

text \<open>
  \<^verbatim>\<open>session.exec(select(TripShare).where(TripShare.trip_id == trip_id,
  TripShare.user_id == user_id)).first()\<close>
\<close>

definition select_TripShare :: "store \<Rightarrow> int \<Rightarrow> int \<Rightarrow> TripShare option" where
  "select_TripShare s trip_id user_id =
     find (\<lambda>sh. TripShare_trip_id sh = trip_id \<and> TripShare_user_id sh = user_id)
       (tripshare_table s)"

section \<open>The handlers of \<^verbatim>\<open>app/main.py\<close>\<close>

subsection \<open>Helpers\<close>

definition fetch_flights :: "store \<Rightarrow> int \<Rightarrow> Flight list" where
  "fetch_flights s trip_id = filter (\<lambda>f. Flight_trip_id f = trip_id) (flight_table s)"

definition fetch_hotels :: "store \<Rightarrow> int \<Rightarrow> Hotel list" where
  "fetch_hotels s trip_id = filter (\<lambda>h. Hotel_trip_id h = trip_id) (hotel_table s)"

definition fetch_share_ids :: "store \<Rightarrow> int \<Rightarrow> int list" where
  "fetch_share_ids s trip_id =
     map TripShare_user_id
       (filter (\<lambda>sh. TripShare_trip_id sh = trip_id) (tripshare_table s))"

definition user_has_access :: "store \<Rightarrow> int \<Rightarrow> int \<Rightarrow> bool" where
  "user_has_access s user_id trip_id = (select_TripShare s trip_id user_id \<noteq> None)"

definition ensure_trip_access :: "store \<Rightarrow> int \<Rightarrow> int \<Rightarrow> HTTPException + unit" where
  "ensure_trip_access s user_id trip_id =
     (case session_get_Trip s trip_id of
        None \<Rightarrow> Inl (HTTPException HTTP_404_NOT_FOUND ''Trip not found'')
      | Some trip \<Rightarrow>
          if Trip_owner_id trip \<noteq> user_id \<and> \<not> user_has_access s user_id trip_id
          then Inl (HTTPException HTTP_403_FORBIDDEN ''Not authorized for this trip'')
          else Inr ())"

text \<open>
  \<^verbatim>\<open>TripRead\<close> declares \<^verbatim>\<open>flights: List[FlightRead]\<close> and \<^verbatim>\<open>hotels: List[HotelRead]\<close>:
  a row handed to it keeps the fields of the read schema and loses \<^verbatim>\<open>trip_id\<close>.
\<close>

definition to_FlightRead :: "Flight \<Rightarrow> FlightRead" where
  "to_FlightRead f = \<lparr>FlightRead_id = Flight_id f,
     FlightRead_airline = Flight_airline f,
     FlightRead_departure_airport = Flight_departure_airport f,
     FlightRead_arrival_airport = Flight_arrival_airport f,
     FlightRead_departure_time = Flight_departure_time f,
     FlightRead_arrival_time = Flight_arrival_time f\<rparr>"

definition to_HotelRead :: "Hotel \<Rightarrow> HotelRead" where
  "to_HotelRead h = \<lparr>HotelRead_id = Hotel_id h,
     HotelRead_name = Hotel_name h,
     HotelRead_city = Hotel_city h,
     HotelRead_check_in = Hotel_check_in h,
     HotelRead_check_out = Hotel_check_out h\<rparr>"

definition trip_to_read :: "Trip \<Rightarrow> Flight list \<Rightarrow> Hotel list \<Rightarrow> int list \<Rightarrow> TripRead" where
  "trip_to_read trip flights hotels shared_ids =
     \<lparr>TripRead_name = Trip_name trip,
      TripRead_start_date = Trip_start_date trip,
      TripRead_end_date = Trip_end_date trip,
      TripRead_id = Trip_id trip,
      TripRead_owner_id = Trip_owner_id trip,
      TripRead_flights = map to_FlightRead flights,
      TripRead_hotels = map to_HotelRead hotels,
      TripRead_shared_with_user_ids = shared_ids\<rparr>"

subsection \<open>Registration and login\<close>

text \<open>
  \<^verbatim>\<open>get_password_hash\<close>, \<^verbatim>\<open>verify_password\<close> and \<^verbatim>\<open>create_access_token\<close> live in
  \<^verbatim>\<open>app/auth.py\<close>; the handlers take them as parameters. The token is made from
  \<^verbatim>\<open>{"sub": str(user.id)}\<close>, so the parameter takes the user id. \<open>now\<close> is the
  clock read by the \<^verbatim>\<open>created_at\<close> defaults.
\<close>

definition register ::
  "(string \<Rightarrow> string) \<Rightarrow> store \<Rightarrow> UserCreate \<Rightarrow> datetime \<Rightarrow> (HTTPException + UserRead) \<times> store"
where
  "register get_password_hash s user_create now =
     (case select_User_by_email s (UserCreate_email user_create) of
        Some existing_user \<Rightarrow>
          (Inl (HTTPException HTTP_400_BAD_REQUEST ''Email already registered''), s)
      | None \<Rightarrow>
          (let hashed_password = get_password_hash (UserCreate_password user_create);
               user = \<lparr>User_id = next_id (map User_id (user_table s)),
                       User_email = UserCreate_email user_create,
                       User_hashed_password = hashed_password,
                       User_created_at = now\<rparr>
           in (Inr \<lparr>UserRead_id = User_id user, UserRead_email = User_email user\<rparr>,
               s\<lparr>user_table := user_table s @ [user]\<rparr>)))"

definition login ::
  "(string \<Rightarrow> string \<Rightarrow> bool) \<Rightarrow> (int \<Rightarrow> string) \<Rightarrow> store \<Rightarrow> OAuth2PasswordRequestForm
     \<Rightarrow> HTTPException + Token"
where
  "login verify_password create_access_token s form_data =
     (case select_User_by_email s (form_username form_data) of
        None \<Rightarrow> Inl (HTTPException HTTP_401_UNAUTHORIZED ''Incorrect email or password'')
      | Some user \<Rightarrow>
          if \<not> verify_password (form_password form_data) (User_hashed_password user)
          then Inl (HTTPException HTTP_401_UNAUTHORIZED ''Incorrect email or password'')
          else Inr \<lparr>Token_access_token = create_access_token (User_id user),
                    Token_token_type = ''bearer''\<rparr>)"

subsection \<open>Creating and reading trips\<close>

definition new_Flight :: "store \<Rightarrow> int \<Rightarrow> FlightCreate \<Rightarrow> Flight" where
  "new_Flight s trip_id flight =
     \<lparr>Flight_id = next_id (map Flight_id (flight_table s)),
      Flight_trip_id = trip_id,
      Flight_airline = FlightCreate_airline flight,
      Flight_departure_airport = FlightCreate_departure_airport flight,
      Flight_arrival_airport = FlightCreate_arrival_airport flight,
      Flight_departure_time = FlightCreate_departure_time flight,
      Flight_arrival_time = FlightCreate_arrival_time flight\<rparr>"

definition new_Hotel :: "store \<Rightarrow> int \<Rightarrow> HotelCreate \<Rightarrow> Hotel" where
  "new_Hotel s trip_id hotel =
     \<lparr>Hotel_id = next_id (map Hotel_id (hotel_table s)),
      Hotel_trip_id = trip_id,
      Hotel_name = HotelCreate_name hotel,
      Hotel_city = HotelCreate_city hotel,
      Hotel_check_in = HotelCreate_check_in hotel,
      Hotel_check_out = HotelCreate_check_out hotel\<rparr>"

text \<open>
  \<^verbatim>\<open>session.add_all(flights + hotels); session.commit()\<close>: the rows are inserted in
  the order of the list, each with the next key of its table. The functions
  return the inserted rows with their keys, and the store.
\<close>

fun add_all_Flights :: "store \<Rightarrow> int \<Rightarrow> FlightCreate list \<Rightarrow> Flight list \<times> store" where
  "add_all_Flights s trip_id [] = ([], s)"
| "add_all_Flights s trip_id (flight # rest) =
     (let row = new_Flight s trip_id flight;
          (rows, s') = add_all_Flights (s\<lparr>flight_table := flight_table s @ [row]\<rparr>) trip_id rest
      in (row # rows, s'))"

fun add_all_Hotels :: "store \<Rightarrow> int \<Rightarrow> HotelCreate list \<Rightarrow> Hotel list \<times> store" where
  "add_all_Hotels s trip_id [] = ([], s)"
| "add_all_Hotels s trip_id (hotel # rest) =
     (let row = new_Hotel s trip_id hotel;
          (rows, s') = add_all_Hotels (s\<lparr>hotel_table := hotel_table s @ [row]\<rparr>) trip_id rest
      in (row # rows, s'))"

definition create_trip :: "store \<Rightarrow> User \<Rightarrow> TripCreate \<Rightarrow> datetime \<Rightarrow> TripRead \<times> store" where
  "create_trip s current_user trip_create now =
     (let trip = \<lparr>Trip_id = next_id (map Trip_id (trip_table s)),
                  Trip_name = TripCreate_name trip_create,
                  Trip_owner_id = User_id current_user,
                  Trip_start_date = TripCreate_start_date trip_create,
                  Trip_end_date = TripCreate_end_date trip_create,
                  Trip_created_at = now\<rparr>;
          s1 = s\<lparr>trip_table := trip_table s @ [trip]\<rparr>;
          (flights, s2) = add_all_Flights s1 (Trip_id trip) (TripCreate_flights trip_create);
          (hotels, s3) = add_all_Hotels s2 (Trip_id trip) (TripCreate_hotels trip_create)
      in (trip_to_read trip flights hotels [], s3))"

text \<open>
  The read view the handlers build from the store for a trip row:
  \<^verbatim>\<open>_trip_to_read(trip, _fetch_flights(session, trip.id),
  _fetch_hotels(session, trip.id), _fetch_share_ids(session, trip.id))\<close>.
\<close>

definition read_trip :: "store \<Rightarrow> Trip \<Rightarrow> TripRead" where
  "read_trip s trip =
     trip_to_read trip (fetch_flights s (Trip_id trip)) (fetch_hotels s (Trip_id trip))
       (fetch_share_ids s (Trip_id trip))"

text \<open>
  \<^verbatim>\<open>trip not in owned_trips\<close> compares rows: two rows of the table are equal when
  all their columns are.
\<close>

definition list_trips :: "store \<Rightarrow> User \<Rightarrow> TripRead list" where
  "list_trips s current_user =
     (let owned_trips = filter (\<lambda>t. Trip_owner_id t = User_id current_user) (trip_table s);
          shared_trip_ids = map TripShare_trip_id
            (filter (\<lambda>sh. TripShare_user_id sh = User_id current_user) (tripshare_table s));
          shared_trips =
            (if shared_trip_ids \<noteq> []
             then filter (\<lambda>t. Trip_id t \<in> set shared_trip_ids) (trip_table s)
             else []);
          trips = owned_trips @ filter (\<lambda>trip. trip \<notin> set owned_trips) shared_trips
      in map (read_trip s) trips)"

definition get_trip :: "store \<Rightarrow> User \<Rightarrow> int \<Rightarrow> HTTPException + TripRead" where
  "get_trip s current_user trip_id =
     (case session_get_Trip s trip_id of
        None \<Rightarrow> Inl (HTTPException HTTP_404_NOT_FOUND ''Trip not found'')
      | Some trip \<Rightarrow>
          if Trip_owner_id trip \<noteq> User_id current_user
             \<and> \<not> user_has_access s (User_id current_user) trip_id
          then Inl (HTTPException HTTP_403_FORBIDDEN ''Not authorized to view this trip'')
          else Inr (trip_to_read trip (fetch_flights s trip_id) (fetch_hotels s trip_id)
                      (fetch_share_ids s trip_id)))"

subsection \<open>Sharing\<close>

definition share_trip ::
  "store \<Rightarrow> User \<Rightarrow> int \<Rightarrow> ShareRequest \<Rightarrow> datetime \<Rightarrow> (HTTPException + unit) \<times> store"
where
  "share_trip s current_user trip_id share_request now =
     (case session_get_Trip s trip_id of
        None \<Rightarrow> (Inl (HTTPException HTTP_404_NOT_FOUND ''Trip not found''), s)
      | Some trip \<Rightarrow>
          if Trip_owner_id trip \<noteq> User_id current_user
          then (Inl (HTTPException HTTP_403_FORBIDDEN ''Only the owner can share the trip''), s)
          else
            (case select_User_by_email s (ShareRequest_email share_request) of
               None \<Rightarrow>
                 (Inl (HTTPException HTTP_404_NOT_FOUND ''User to share with was not found''), s)
             | Some target_user \<Rightarrow>
                 if User_id target_user = User_id current_user
                 then (Inl (HTTPException HTTP_400_BAD_REQUEST
                              ''Cannot share a trip with yourself''), s)
                 else
                   (case select_TripShare s trip_id (User_id target_user) of
                      Some existing_share \<Rightarrow> (Inr (), s)
                    | None \<Rightarrow>
                        (let share = \<lparr>TripShare_trip_id = trip_id,
                                       TripShare_user_id = User_id target_user,
                                       TripShare_created_at = now\<rparr>
                         in (Inr (), s\<lparr>tripshare_table := tripshare_table s @ [share]\<rparr>)))))"

subsection \<open>Appending flights and hotels\<close>

text \<open>
  After the commit the handler reads the trip again with \<^verbatim>\<open>session.get\<close>; were it
  \<^verbatim>\<open>None\<close>, \<^verbatim>\<open>_trip_to_read\<close> would fail on \<^verbatim>\<open>trip.id\<close> and the framework would
  answer 500, the row already written.
\<close>

definition internal_server_error :: HTTPException where
  "internal_server_error = HTTPException 500 ''Internal Server Error''"

definition add_flight ::
  "store \<Rightarrow> User \<Rightarrow> int \<Rightarrow> FlightCreate \<Rightarrow> (HTTPException + TripRead) \<times> store"
where
  "add_flight s current_user trip_id flight =
     (case ensure_trip_access s (User_id current_user) trip_id of
        Inl e \<Rightarrow> (Inl e, s)
      | Inr _ \<Rightarrow>
          (let flight_row = new_Flight s trip_id flight;
               s' = s\<lparr>flight_table := flight_table s @ [flight_row]\<rparr>
           in (case session_get_Trip s' trip_id of
                 None \<Rightarrow> (Inl internal_server_error, s')
               | Some trip \<Rightarrow>
                   (Inr (trip_to_read trip (fetch_flights s' trip_id) (fetch_hotels s' trip_id)
                           (fetch_share_ids s' trip_id)), s'))))"

definition add_hotel ::
  "store \<Rightarrow> User \<Rightarrow> int \<Rightarrow> HotelCreate \<Rightarrow> (HTTPException + TripRead) \<times> store"
where
  "add_hotel s current_user trip_id hotel =
     (case ensure_trip_access s (User_id current_user) trip_id of
        Inl e \<Rightarrow> (Inl e, s)
      | Inr _ \<Rightarrow>
          (let hotel_row = new_Hotel s trip_id hotel;
               s' = s\<lparr>hotel_table := hotel_table s @ [hotel_row]\<rparr>
           in (case session_get_Trip s' trip_id of
                 None \<Rightarrow> (Inl internal_server_error, s')
               | Some trip \<Rightarrow>
                   (Inr (trip_to_read trip (fetch_flights s' trip_id) (fetch_hotels s' trip_id)
                           (fetch_share_ids s' trip_id)), s'))))"

text \<open>A handler succeeds when it returns instead of raising.\<close>

definition succeeds :: "HTTPException + 'a \<Rightarrow> bool" where
  "succeeds r = (case r of Inl _ \<Rightarrow> False | Inr _ \<Rightarrow> True)"

section \<open>Reachable stores\<close>

text \<open>
  The stores the service can be in: it starts empty, and every request that
  writes is one step. A request body for \<^verbatim>\<open>register\<close> has passed the validator
  of \<^verbatim>\<open>UserCreate\<close>; the user of an authenticated request is a row of the user
  table. \<^verbatim>\<open>login\<close>, \<^verbatim>\<open>list_trips\<close> and \<^verbatim>\<open>get_trip\<close> write nothing.
\<close>

inductive reachable :: "store \<Rightarrow> bool" where
  start: "reachable empty_store"
| step_register:
    "reachable s \<Longrightarrow> password_length (UserCreate_password user_create) \<noteq> None
     \<Longrightarrow> reachable (snd (register get_password_hash s user_create now))"
| step_create_trip:
    "reachable s \<Longrightarrow> current_user \<in> set (user_table s)
     \<Longrightarrow> reachable (snd (create_trip s current_user trip_create now))"
| step_share_trip:
    "reachable s \<Longrightarrow> current_user \<in> set (user_table s)
     \<Longrightarrow> reachable (snd (share_trip s current_user trip_id share_request now))"
| step_add_flight:
    "reachable s \<Longrightarrow> current_user \<in> set (user_table s)
     \<Longrightarrow> reachable (snd (add_flight s current_user trip_id flight))"
| step_add_hotel:
    "reachable s \<Longrightarrow> current_user \<in> set (user_table s)
     \<Longrightarrow> reachable (snd (add_hotel s current_user trip_id hotel))"

text \<open>
  The key constraints \<^verbatim>\<open>app/models.py\<close> declares: \<^verbatim>\<open>id\<close> is the primary key of
  \<^verbatim>\<open>Trip\<close>, and \<^verbatim>\<open>(trip_id, user_id)\<close> is the primary key of \<^verbatim>\<open>TripShare\<close>.
\<close>

definition TripShare_key :: "TripShare \<Rightarrow> int \<times> int" where
  "TripShare_key sh = (TripShare_trip_id sh, TripShare_user_id sh)"

definition primary_keys :: "store \<Rightarrow> bool" where
  "primary_keys s \<longleftrightarrow>
     distinct (map Trip_id (trip_table s)) \<and> distinct (map TripShare_key (tripshare_table s))"

text \<open>Every share row references a stored trip, and never the trip's owner.\<close>

definition shares_ok :: "store \<Rightarrow> bool" where
  "shares_ok s \<longleftrightarrow>
     list_all (\<lambda>sh.
        list_ex (\<lambda>t. Trip_id t = TripShare_trip_id sh) (trip_table s)
        \<and> list_all (\<lambda>t. Trip_id t = TripShare_trip_id sh
                          \<longrightarrow> Trip_owner_id t \<noteq> TripShare_user_id sh) (trip_table s))
       (tripshare_table s)"

text \<open>Every flight and hotel row references a stored trip.\<close>

definition rows_ok :: "store \<Rightarrow> bool" where
  "rows_ok s \<longleftrightarrow>
     list_all (\<lambda>f. list_ex (\<lambda>t. Trip_id t = Flight_trip_id f) (trip_table s)) (flight_table s)
     \<and> list_all (\<lambda>h. list_ex (\<lambda>t. Trip_id t = Hotel_trip_id h) (trip_table s))
          (hotel_table s)"

definition store_inv :: "store \<Rightarrow> bool" where
  "store_inv s \<longleftrightarrow> primary_keys s \<and> shares_ok s"

section \<open>Owned and shared trips\<close>

text \<open>
  The two sets \<^verbatim>\<open>GET /trips\<close> is specified to join: the trips a user owns, and the
  trips a share row gives to the user.
\<close>

definition owned_by :: "User \<Rightarrow> Trip \<Rightarrow> bool" where
  "owned_by u t \<longleftrightarrow> Trip_owner_id t = User_id u"

definition shared_to :: "store \<Rightarrow> User \<Rightarrow> Trip \<Rightarrow> bool" where
  "shared_to s u t \<longleftrightarrow>
     list_ex (\<lambda>sh. TripShare_trip_id sh = Trip_id t \<and> TripShare_user_id sh = User_id u)
       (tripshare_table s)"

section \<open>A run of the service\<close>

text \<open>
  The run of the spec's end-to-end scenario, used to evaluate the handlers on
  concrete requests: alice, bob and carol register, alice creates the trip
  Paris with one flight and one hotel, and shares it with bob.
\<close>

definition example_hash :: "string \<Rightarrow> string" where
  "example_hash password = ''h:'' @ password"

definition example_verify :: "string \<Rightarrow> string \<Rightarrow> bool" where
  "example_verify password hashed \<longleftrightarrow> hashed = example_hash password"

definition example_token :: "int \<Rightarrow> string" where
  "example_token user_id = (if user_id = 1 then ''token-1'' else ''token-n'')"

definition alice :: User where
  "alice = \<lparr>User_id = 1, User_email = ''alice@example.com'',
     User_hashed_password = ''h:password123'', User_created_at = 100\<rparr>"

definition bob :: User where
  "bob = \<lparr>User_id = 2, User_email = ''bob@example.com'',
     User_hashed_password = ''h:password123'', User_created_at = 101\<rparr>"

definition carol :: User where
  "carol = \<lparr>User_id = 3, User_email = ''carol@example.com'',
     User_hashed_password = ''h:password456'', User_created_at = 102\<rparr>"

definition paris_create :: TripCreate where
  "paris_create = \<lparr>TripCreate_name = ''Paris'', TripCreate_start_date = Some 20,
     TripCreate_end_date = None,
     TripCreate_flights = [\<lparr>FlightCreate_airline = ''AF'',
        FlightCreate_departure_airport = ''JFK'', FlightCreate_arrival_airport = ''CDG'',
        FlightCreate_departure_time = 2000, FlightCreate_arrival_time = 2400\<rparr>],
     TripCreate_hotels = [\<lparr>HotelCreate_name = ''Ritz'', HotelCreate_city = ''Paris'',
        HotelCreate_check_in = 20, HotelCreate_check_out = 25\<rparr>]\<rparr>"

definition paris :: Trip where
  "paris = \<lparr>Trip_id = 1, Trip_name = ''Paris'', Trip_owner_id = 1,
     Trip_start_date = Some 20, Trip_end_date = None, Trip_created_at = 103\<rparr>"

definition paris_flight :: Flight where
  "paris_flight = \<lparr>Flight_id = 1, Flight_trip_id = 1, Flight_airline = ''AF'',
     Flight_departure_airport = ''JFK'', Flight_arrival_airport = ''CDG'',
     Flight_departure_time = 2000, Flight_arrival_time = 2400\<rparr>"

definition paris_hotel :: Hotel where
  "paris_hotel = \<lparr>Hotel_id = 1, Hotel_trip_id = 1, Hotel_name = ''Ritz'',
     Hotel_city = ''Paris'', Hotel_check_in = 20, Hotel_check_out = 25\<rparr>"

definition store_users :: store where
  "store_users =
     snd (register example_hash
       (snd (register example_hash
         (snd (register example_hash empty_store
           \<lparr>UserCreate_email = ''alice@example.com'', UserCreate_password = ''password123''\<rparr> 100))
         \<lparr>UserCreate_email = ''bob@example.com'', UserCreate_password = ''password123''\<rparr> 101))
       \<lparr>UserCreate_email = ''carol@example.com'', UserCreate_password = ''password456''\<rparr> 102)"

definition store_trip :: store where
  "store_trip = snd (create_trip store_users alice paris_create 103)"

definition store_shared :: store where
  "store_shared =
     snd (share_trip store_trip alice 1 \<lparr>ShareRequest_email = ''bob@example.com''\<rparr> 104)"

text \<open>Then bob creates the trip Rome, without flights or hotels.\<close>

definition rome_create :: TripCreate where
  "rome_create = \<lparr>TripCreate_name = ''Rome'', TripCreate_start_date = None,
     TripCreate_end_date = None, TripCreate_flights = [], TripCreate_hotels = []\<rparr>"

definition rome :: Trip where
  "rome = \<lparr>Trip_id = 2, Trip_name = ''Rome'', Trip_owner_id = 2,
     Trip_start_date = None, Trip_end_date = None, Trip_created_at = 105\<rparr>"

definition store_rome :: store where
  "store_rome = snd (create_trip store_shared bob rome_create 105)"

section \<open>Basic facts\<close>

lemmas status_defs =
  HTTP_400_BAD_REQUEST_def HTTP_401_UNAUTHORIZED_def HTTP_403_FORBIDDEN_def
  HTTP_404_NOT_FOUND_def HTTP_201_CREATED_def HTTP_204_NO_CONTENT_def HTTP_200_OK_def

lemma fold_max_init_le: "a \<le> fold max ids (a::int)"
proof (induction ids arbitrary: a)
  case Nil
  show ?case by simp
next
  case (Cons y ys)
  have "a \<le> max y a" by simp
  also have "max y a \<le> fold max ys (max y a)" by (rule Cons.IH)
  finally show ?case by simp
qed

lemma fold_max_ge: "x \<in> set ids \<Longrightarrow> x \<le> fold max ids (a::int)"
proof (induction ids arbitrary: a)
  case Nil
  then show ?case by simp
next
  case (Cons y ys)
  show ?case
  proof (cases "x = y")
    case True
    have "y \<le> max y a" by simp
    also have "max y a \<le> fold max ys (max y a)" by (rule fold_max_init_le)
    finally show ?thesis using True by simp
  next
    case False
    with Cons show ?thesis by simp
  qed
qed

lemma next_id_fresh: "next_id ids \<notin> set ids"
  using fold_max_ge [of "next_id ids" ids 0] by (auto simp: next_id_def)

subsection \<open>Lookups\<close>

lemma find_eq_None: "find P xs = None \<longleftrightarrow> (\<forall>x\<in>set xs. \<not> P x)"
  by (induction xs) auto

lemma find_Some_holds: "find P xs = Some x \<Longrightarrow> P x \<and> x \<in> set xs"
  by (induction xs) (auto split: if_splits)

lemma user_has_access_iff:
  "user_has_access s user_id trip_id \<longleftrightarrow>
     (\<exists>sh\<in>set (tripshare_table s).
        TripShare_trip_id sh = trip_id \<and> TripShare_user_id sh = user_id)"
  by (auto simp: user_has_access_def select_TripShare_def find_eq_None)

lemma session_get_Trip_None:
  "session_get_Trip s trip_id = None \<longleftrightarrow> trip_id \<notin> Trip_id ` set (trip_table s)"
  by (auto simp: session_get_Trip_def find_eq_None)

lemma session_get_Trip_Some:
  "session_get_Trip s trip_id = Some t \<Longrightarrow> Trip_id t = trip_id \<and> t \<in> set (trip_table s)"
  unfolding session_get_Trip_def by (drule find_Some_holds) simp

lemma session_get_Trip_flight_update [simp]:
  "session_get_Trip (s\<lparr>flight_table := fs\<rparr>) trip_id = session_get_Trip s trip_id"
  by (simp add: session_get_Trip_def)

lemma session_get_Trip_hotel_update [simp]:
  "session_get_Trip (s\<lparr>hotel_table := hs\<rparr>) trip_id = session_get_Trip s trip_id"
  by (simp add: session_get_Trip_def)

subsection \<open>The stores of the example run\<close>

lemma store_users_eq:
  "store_users = \<lparr>user_table = [alice, bob, carol], trip_table = [], flight_table = [],
     hotel_table = [], tripshare_table = []\<rparr>"
  by (simp add: store_users_def register_def select_User_by_email_def empty_store_def
      next_id_def example_hash_def alice_def bob_def carol_def)

lemma store_trip_eq:
  "store_trip = \<lparr>user_table = [alice, bob, carol], trip_table = [paris],
     flight_table = [paris_flight], hotel_table = [paris_hotel], tripshare_table = []\<rparr>"
  by (simp add: store_trip_def store_users_eq create_trip_def new_Flight_def new_Hotel_def
      next_id_def paris_create_def paris_def paris_flight_def paris_hotel_def alice_def Let_def)

lemma store_shared_eq:
  "store_shared = \<lparr>user_table = [alice, bob, carol], trip_table = [paris],
     flight_table = [paris_flight], hotel_table = [paris_hotel],
     tripshare_table = [\<lparr>TripShare_trip_id = 1, TripShare_user_id = 2,
        TripShare_created_at = 104\<rparr>]\<rparr>"
  by (simp add: store_shared_def store_trip_eq share_trip_def session_get_Trip_def
      select_User_by_email_def select_TripShare_def paris_def alice_def bob_def carol_def
      status_defs Let_def)

lemma example_ids [simp]:
  "User_id alice = 1" "User_id bob = 2" "User_id carol = 3"
  "Trip_id paris = 1" "Trip_owner_id paris = 1"
  "User_email alice = ''alice@example.com''" "User_email bob = ''bob@example.com''"
  "User_email carol = ''carol@example.com''"
  by (simp_all add: alice_def bob_def carol_def paris_def)

lemma store_rome_eq:
  "store_rome = \<lparr>user_table = [alice, bob, carol], trip_table = [paris, rome],
     flight_table = [paris_flight], hotel_table = [paris_hotel],
     tripshare_table = [\<lparr>TripShare_trip_id = 1, TripShare_user_id = 2,
        TripShare_created_at = 104\<rparr>]\<rparr>"
  by (simp add: store_rome_def store_shared_eq create_trip_def next_id_def rome_create_def
      rome_def Let_def)

lemma reachable_store_users: "reachable store_users"
  unfolding store_users_def
  by (intro reachable.step_register reachable.start) (simp_all add: password_length_def)

lemma reachable_store_trip: "reachable store_trip"
  unfolding store_trip_def
  by (rule reachable.step_create_trip [OF reachable_store_users]) (simp add: store_users_eq)

lemma reachable_store_shared: "reachable store_shared"
  unfolding store_shared_def
  by (rule reachable.step_share_trip [OF reachable_store_trip]) (simp add: store_trip_eq)

section \<open>Login does not tell an unknown email from a wrong password\<close>

text \<open>
  C7. In any store, a login with an email no user has and a login with the email
  of a stored user and a password that does not verify against the stored hash
  give the same outcome: the same exception, status 401 with the same detail,
  hence the same response.
\<close>

theorem login_unknown_email_same_as_wrong_password:
  assumes "select_User_by_email s (form_username f1) = None"
      and "select_User_by_email s (form_username f2) = Some u"
      and "\<not> verify_password (form_password f2) (User_hashed_password u)"
  shows "login verify_password create_access_token s f1
           = login verify_password create_access_token s f2
       \<and> login verify_password create_access_token s f1
           = Inl (HTTPException 401 ''Incorrect email or password'')
       \<and> response_status HTTP_200_OK (login verify_password create_access_token s f1) = 401
       \<and> response_status HTTP_200_OK (login verify_password create_access_token s f2) = 401"
  using assms by (simp add: login_def response_status_def HTTP_401_UNAUTHORIZED_def)

theorem login_unknown_email_same_as_wrong_password_witness:
  "select_User_by_email store_users
      (form_username \<lparr>form_username = ''dave@example.com'', form_password = ''password123''\<rparr>)
     = None
   \<and> select_User_by_email store_users
      (form_username \<lparr>form_username = ''alice@example.com'', form_password = ''password124''\<rparr>)
     = Some alice
   \<and> \<not> example_verify
      (form_password \<lparr>form_username = ''alice@example.com'', form_password = ''password124''\<rparr>)
      (User_hashed_password alice)
   \<and> login example_verify example_token store_users
        \<lparr>form_username = ''dave@example.com'', form_password = ''password123''\<rparr>
     = login example_verify example_token store_users
        \<lparr>form_username = ''alice@example.com'', form_password = ''password124''\<rparr>
   \<and> login example_verify example_token store_users
        \<lparr>form_username = ''dave@example.com'', form_password = ''password123''\<rparr>
     = Inl (HTTPException 401 ''Incorrect email or password'')"
proof -
  let ?f1 = "\<lparr>form_username = ''dave@example.com'', form_password = ''password123''\<rparr>"
  let ?f2 = "\<lparr>form_username = ''alice@example.com'', form_password = ''password124''\<rparr>"
  have h1: "select_User_by_email store_users (form_username ?f1) = None"
    by (simp add: select_User_by_email_def store_users_eq)
  have h2: "select_User_by_email store_users (form_username ?f2) = Some alice"
    by (simp add: select_User_by_email_def store_users_eq)
  have h3: "\<not> example_verify (form_password ?f2) (User_hashed_password alice)"
    by (simp add: example_verify_def example_hash_def alice_def)
  from login_unknown_email_same_as_wrong_password
    [of store_users ?f1 ?f2 alice example_verify example_token, OF h1 h2 h3] h1 h2 h3
  show ?thesis by blast
qed

section \<open>Who may read and extend a trip\<close>

text \<open>
  C1. For a user \<open>u\<close> and a trip \<open>t\<close> that \<^verbatim>\<open>session.get\<close> finds under the id of the
  request, each of \<^verbatim>\<open>GET /trips/{id}\<close>, \<^verbatim>\<open>POST /trips/{id}/flights\<close> and
  \<^verbatim>\<open>POST /trips/{id}/hotels\<close> succeeds exactly when \<open>u\<close> is the owner of \<open>t\<close> or a
  share row for the trip and \<open>u\<close> exists; so appending is allowed exactly when
  viewing is.
\<close>

theorem trip_access_owner_or_shared:
  assumes "session_get_Trip s trip_id = Some t"
  shows "(succeeds (get_trip s u trip_id) \<longleftrightarrow>
            Trip_owner_id t = User_id u
            \<or> (\<exists>sh\<in>set (tripshare_table s).
                  TripShare_trip_id sh = Trip_id t \<and> TripShare_user_id sh = User_id u))
       \<and> (succeeds (fst (add_flight s u trip_id flight)) \<longleftrightarrow>
            Trip_owner_id t = User_id u
            \<or> (\<exists>sh\<in>set (tripshare_table s).
                  TripShare_trip_id sh = Trip_id t \<and> TripShare_user_id sh = User_id u))
       \<and> (succeeds (fst (add_hotel s u trip_id hotel)) \<longleftrightarrow>
            Trip_owner_id t = User_id u
            \<or> (\<exists>sh\<in>set (tripshare_table s).
                  TripShare_trip_id sh = Trip_id t \<and> TripShare_user_id sh = User_id u))
       \<and> (succeeds (fst (add_flight s u trip_id flight)) = succeeds (get_trip s u trip_id))
       \<and> (succeeds (fst (add_hotel s u trip_id hotel)) = succeeds (get_trip s u trip_id))"
proof -
  have id: "Trip_id t = trip_id" using assms by (simp add: session_get_Trip_Some)
  have g: "succeeds (get_trip s u trip_id) \<longleftrightarrow>
            Trip_owner_id t = User_id u \<or> user_has_access s (User_id u) trip_id"
    using assms by (simp add: get_trip_def succeeds_def)
  have f: "succeeds (fst (add_flight s u trip_id flight)) \<longleftrightarrow>
            Trip_owner_id t = User_id u \<or> user_has_access s (User_id u) trip_id"
    using assms by (simp add: add_flight_def ensure_trip_access_def succeeds_def Let_def)
  have h: "succeeds (fst (add_hotel s u trip_id hotel)) \<longleftrightarrow>
            Trip_owner_id t = User_id u \<or> user_has_access s (User_id u) trip_id"
    using assms by (simp add: add_hotel_def ensure_trip_access_def succeeds_def Let_def)
  show ?thesis unfolding g f h id user_has_access_iff by simp
qed

theorem trip_access_owner_or_shared_witness:
  "session_get_Trip store_shared 1 = Some paris
   \<and> succeeds (get_trip store_shared alice 1)
   \<and> succeeds (get_trip store_shared bob 1)
   \<and> \<not> succeeds (get_trip store_shared carol 1)
   \<and> succeeds (fst (add_flight store_shared bob 1 (hd (TripCreate_flights paris_create))))
   \<and> \<not> succeeds (fst (add_hotel store_shared carol 1 (hd (TripCreate_hotels paris_create))))"
proof -
  have h: "session_get_Trip store_shared 1 = Some paris"
    by (simp add: session_get_Trip_def store_shared_eq)
  have sh: "tripshare_table store_shared = [\<lparr>TripShare_trip_id = 1, TripShare_user_id = 2,
        TripShare_created_at = 104\<rparr>]" by (simp add: store_shared_eq)
  show ?thesis
    using h trip_access_owner_or_shared [OF h, of alice]
      trip_access_owner_or_shared [OF h, of bob "hd (TripCreate_flights paris_create)"]
      trip_access_owner_or_shared [OF h, of carol _ "hd (TripCreate_hotels paris_create)"]
    by (simp add: sh)
qed


section \<open>Existence before authorization\<close>

lemma missing_trip_404:
  assumes "trip_id \<notin> Trip_id ` set (trip_table s)"
  shows "get_trip s u trip_id = Inl (HTTPException 404 ''Trip not found'')"
    and "share_trip s u trip_id share_request now
           = (Inl (HTTPException 404 ''Trip not found''), s)"
    and "add_flight s u trip_id flight = (Inl (HTTPException 404 ''Trip not found''), s)"
    and "add_hotel s u trip_id hotel = (Inl (HTTPException 404 ''Trip not found''), s)"
  using assms
  by (simp_all add: session_get_Trip_None [symmetric] get_trip_def share_trip_def
      add_flight_def add_hotel_def ensure_trip_access_def HTTP_404_NOT_FOUND_def)

lemma no_access_403:
  assumes "session_get_Trip s trip_id = Some t"
      and "Trip_owner_id t \<noteq> User_id u"
      and "\<forall>sh\<in>set (tripshare_table s).
             \<not> (TripShare_trip_id sh = Trip_id t \<and> TripShare_user_id sh = User_id u)"
  shows "get_trip s u trip_id = Inl (HTTPException 403 ''Not authorized to view this trip'')"
    and "share_trip s u trip_id share_request now
           = (Inl (HTTPException 403 ''Only the owner can share the trip''), s)"
    and "add_flight s u trip_id flight
           = (Inl (HTTPException 403 ''Not authorized for this trip''), s)"
    and "add_hotel s u trip_id hotel
           = (Inl (HTTPException 403 ''Not authorized for this trip''), s)"
proof -
  have id: "Trip_id t = trip_id" using assms(1) session_get_Trip_Some by blast
  with assms(3) have na: "\<not> user_has_access s (User_id u) trip_id"
    by (simp add: user_has_access_iff)
  from assms(1,2) na
  show "get_trip s u trip_id = Inl (HTTPException 403 ''Not authorized to view this trip'')"
    and "share_trip s u trip_id share_request now
           = (Inl (HTTPException 403 ''Only the owner can share the trip''), s)"
    and "add_flight s u trip_id flight
           = (Inl (HTTPException 403 ''Not authorized for this trip''), s)"
    and "add_hotel s u trip_id hotel
           = (Inl (HTTPException 403 ''Not authorized for this trip''), s)"
    by (simp_all add: get_trip_def share_trip_def add_flight_def add_hotel_def
        ensure_trip_access_def HTTP_403_FORBIDDEN_def)
qed

text \<open>
  C2. When no trip has the id of the request, each of \<^verbatim>\<open>GET /trips/{id}\<close>,
  \<^verbatim>\<open>POST /trips/{id}/share\<close>, \<^verbatim>\<open>POST /trips/{id}/flights\<close> and
  \<^verbatim>\<open>POST /trips/{id}/hotels\<close> raises 404 for any user and leaves the store as it
  was. When the trip exists and the user is neither its owner nor the user of a
  share row of it, each of them raises 403 and leaves the store as it was.
\<close>

theorem trip_missing_404_no_access_403:
  "(trip_id \<notin> Trip_id ` set (trip_table s) \<longrightarrow>
       get_trip s u trip_id = Inl (HTTPException 404 ''Trip not found'')
     \<and> share_trip s u trip_id share_request now
         = (Inl (HTTPException 404 ''Trip not found''), s)
     \<and> add_flight s u trip_id flight = (Inl (HTTPException 404 ''Trip not found''), s)
     \<and> add_hotel s u trip_id hotel = (Inl (HTTPException 404 ''Trip not found''), s))
   \<and> (session_get_Trip s trip_id = Some t \<and> Trip_owner_id t \<noteq> User_id u
      \<and> (\<forall>sh\<in>set (tripshare_table s).
            \<not> (TripShare_trip_id sh = Trip_id t \<and> TripShare_user_id sh = User_id u)) \<longrightarrow>
       get_trip s u trip_id = Inl (HTTPException 403 ''Not authorized to view this trip'')
     \<and> share_trip s u trip_id share_request now
         = (Inl (HTTPException 403 ''Only the owner can share the trip''), s)
     \<and> add_flight s u trip_id flight
         = (Inl (HTTPException 403 ''Not authorized for this trip''), s)
     \<and> add_hotel s u trip_id hotel
         = (Inl (HTTPException 403 ''Not authorized for this trip''), s))"
  by (intro conjI impI; (elim conjE)?; (rule missing_trip_404 no_access_403; assumption))

theorem trip_missing_404_no_access_403_witness:
  "7 \<notin> Trip_id ` set (trip_table store_shared)
   \<and> get_trip store_shared carol 7 = Inl (HTTPException 404 ''Trip not found'')
   \<and> fst (share_trip store_shared alice 7 \<lparr>ShareRequest_email = ''bob@example.com''\<rparr> 105)
       = Inl (HTTPException 404 ''Trip not found'')
   \<and> session_get_Trip store_shared 1 = Some paris
   \<and> Trip_owner_id paris \<noteq> User_id carol
   \<and> map TripShare_user_id (tripshare_table store_shared) = [2]
   \<and> get_trip store_shared carol 1
       = Inl (HTTPException 403 ''Not authorized to view this trip'')
   \<and> fst (add_flight store_shared carol 1 (hd (TripCreate_flights paris_create)))
       = Inl (HTTPException 403 ''Not authorized for this trip'')"
proof -
  have h0: "7 \<notin> Trip_id ` set (trip_table store_shared)"
    by (simp add: store_shared_eq)
  have h1: "session_get_Trip store_shared 1 = Some paris"
    by (simp add: session_get_Trip_def store_shared_eq)
  have h2: "Trip_owner_id paris \<noteq> User_id carol" by simp
  have h3: "\<forall>sh\<in>set (tripshare_table store_shared).
         \<not> (TripShare_trip_id sh = Trip_id paris \<and> TripShare_user_id sh = User_id carol)"
    by (simp add: store_shared_eq)
  from trip_missing_404_no_access_403
    [of 7 store_shared carol "\<lparr>ShareRequest_email = ''bob@example.com''\<rparr>" 105]
    trip_missing_404_no_access_403
    [of 7 store_shared alice "\<lparr>ShareRequest_email = ''bob@example.com''\<rparr>" 105]
    trip_missing_404_no_access_403
    [of 1 store_shared carol _ _ "hd (TripCreate_flights paris_create)" _ paris]
    h0 h1 h2 h3
  show ?thesis by (simp add: store_shared_eq)
qed

section \<open>Sharing a trip with oneself\<close>

text \<open>
  C8. When the trip of the request exists and the email of the share request is
  the one of the requesting user, \<^verbatim>\<open>share_trip\<close> raises an exception with a 4xx
  status and the store, so the share table, is unchanged: 400 when the user owns
  the trip, 403 when the user does not.
\<close>

theorem share_with_self_rejected:
  assumes "session_get_Trip s trip_id = Some t"
      and "select_User_by_email s (ShareRequest_email share_request) = Some u"
  shows "snd (share_trip s u trip_id share_request now) = s
       \<and> (\<exists>e. fst (share_trip s u trip_id share_request now) = Inl e
             \<and> 400 \<le> status_code e \<and> status_code e < 500)
       \<and> fst (share_trip s u trip_id share_request now) =
           (if Trip_owner_id t = User_id u
            then Inl (HTTPException 400 ''Cannot share a trip with yourself'')
            else Inl (HTTPException 403 ''Only the owner can share the trip''))"
  using assms by (simp add: share_trip_def status_defs)

theorem share_with_self_rejected_witness:
  "session_get_Trip store_shared 1 = Some paris
   \<and> select_User_by_email store_shared
        (ShareRequest_email \<lparr>ShareRequest_email = ''alice@example.com''\<rparr>) = Some alice
   \<and> select_User_by_email store_shared
        (ShareRequest_email \<lparr>ShareRequest_email = ''bob@example.com''\<rparr>) = Some bob
   \<and> share_trip store_shared alice 1 \<lparr>ShareRequest_email = ''alice@example.com''\<rparr> 105
       = (Inl (HTTPException 400 ''Cannot share a trip with yourself''), store_shared)
   \<and> share_trip store_shared bob 1 \<lparr>ShareRequest_email = ''bob@example.com''\<rparr> 105
       = (Inl (HTTPException 403 ''Only the owner can share the trip''), store_shared)"
proof -
  have h1: "session_get_Trip store_shared 1 = Some paris"
    by (simp add: session_get_Trip_def store_shared_eq)
  have h2: "select_User_by_email store_shared
        (ShareRequest_email \<lparr>ShareRequest_email = ''alice@example.com''\<rparr>) = Some alice"
    by (simp add: select_User_by_email_def store_shared_eq)
  have h3: "select_User_by_email store_shared
        (ShareRequest_email \<lparr>ShareRequest_email = ''bob@example.com''\<rparr>) = Some bob"
    by (simp add: select_User_by_email_def store_shared_eq)
  from share_with_self_rejected [OF h1 h2, of 105] share_with_self_rejected [OF h1 h3, of 105]
    h1 h2 h3
  show ?thesis by (simp add: prod_eq_iff)
qed

section \<open>Registering a taken email\<close>

text \<open>
  C9. When a stored user has the email of the request, \<^verbatim>\<open>register\<close> raises 400
  and returns the store unchanged: no user row is added and the row of the
  stored user (id, email, password hash) is as before.
\<close>

theorem register_taken_email_conflict:
  assumes "existing \<in> set (user_table s)"
      and "User_email existing = UserCreate_email user_create"
  shows "register get_password_hash s user_create now
           = (Inl (HTTPException 400 ''Email already registered''), s)"
proof -
  have "select_User_by_email s (UserCreate_email user_create) \<noteq> None"
    using assms by (auto simp: select_User_by_email_def find_eq_None)
  then show ?thesis by (auto simp: register_def status_defs)
qed

theorem register_taken_email_conflict_witness:
  "alice \<in> set (user_table store_users)
   \<and> User_email alice = UserCreate_email
        \<lparr>UserCreate_email = ''alice@example.com'', UserCreate_password = ''another-password''\<rparr>
   \<and> register example_hash store_users
        \<lparr>UserCreate_email = ''alice@example.com'', UserCreate_password = ''another-password''\<rparr>
        105
       = (Inl (HTTPException 400 ''Email already registered''), store_users)
   \<and> user_table store_users = [alice, bob, carol]"
proof -
  have h1: "alice \<in> set (user_table store_users)" by (simp add: store_users_eq)
  have h2: "User_email alice = UserCreate_email
        \<lparr>UserCreate_email = ''alice@example.com'', UserCreate_password = ''another-password''\<rparr>"
    by simp
  from register_taken_email_conflict [OF h1 h2, of example_hash 105] h1 h2
  show ?thesis by (simp add: store_users_eq)
qed

section \<open>What sharing writes\<close>

text \<open>
  C10. Whatever a call of \<^verbatim>\<open>share_trip\<close> returns or raises, the user, trip, flight
  and hotel tables after it are the ones before it, and the share table after
  it is the one before it, or the one before it with one row appended.
\<close>

theorem share_trip_frame:
  "user_table (snd (share_trip s u trip_id share_request now)) = user_table s
   \<and> trip_table (snd (share_trip s u trip_id share_request now)) = trip_table s
   \<and> flight_table (snd (share_trip s u trip_id share_request now)) = flight_table s
   \<and> hotel_table (snd (share_trip s u trip_id share_request now)) = hotel_table s
   \<and> (tripshare_table (snd (share_trip s u trip_id share_request now)) = tripshare_table s
      \<or> (\<exists>share. tripshare_table (snd (share_trip s u trip_id share_request now))
             = tripshare_table s @ [share]))"
  by (simp add: share_trip_def Let_def split: option.split)


section \<open>The share table in reachable stores\<close>

lemma shares_ok_iff:
  "shares_ok s \<longleftrightarrow>
     (\<forall>sh\<in>set (tripshare_table s).
        TripShare_trip_id sh \<in> Trip_id ` set (trip_table s)
        \<and> (\<forall>t\<in>set (trip_table s). Trip_id t = TripShare_trip_id sh
               \<longrightarrow> Trip_owner_id t \<noteq> TripShare_user_id sh))"
  unfolding shares_ok_def list_all_iff list_ex_iff by (simp add: image_iff) metis

lemma store_inv_other_tables [simp]:
  "store_inv (s\<lparr>user_table := us\<rparr>) = store_inv s"
  "store_inv (s\<lparr>flight_table := fs\<rparr>) = store_inv s"
  "store_inv (s\<lparr>hotel_table := hs\<rparr>) = store_inv s"
  by (simp_all add: store_inv_def primary_keys_def shares_ok_def)

lemma add_all_Flights_tables:
  "user_table (snd (add_all_Flights s trip_id fs)) = user_table s
   \<and> trip_table (snd (add_all_Flights s trip_id fs)) = trip_table s
   \<and> hotel_table (snd (add_all_Flights s trip_id fs)) = hotel_table s
   \<and> tripshare_table (snd (add_all_Flights s trip_id fs)) = tripshare_table s"
  by (induction fs arbitrary: s) (simp_all add: Let_def split_beta)

lemma add_all_Hotels_tables:
  "user_table (snd (add_all_Hotels s trip_id hs)) = user_table s
   \<and> trip_table (snd (add_all_Hotels s trip_id hs)) = trip_table s
   \<and> flight_table (snd (add_all_Hotels s trip_id hs)) = flight_table s
   \<and> tripshare_table (snd (add_all_Hotels s trip_id hs)) = tripshare_table s"
  by (induction hs arbitrary: s) (simp_all add: Let_def split_beta)

lemma create_trip_tables:
  "trip_table (snd (create_trip s u trip_create now)) =
     trip_table s @ [\<lparr>Trip_id = next_id (map Trip_id (trip_table s)),
                  Trip_name = TripCreate_name trip_create,
                  Trip_owner_id = User_id u,
                  Trip_start_date = TripCreate_start_date trip_create,
                  Trip_end_date = TripCreate_end_date trip_create,
                  Trip_created_at = now\<rparr>]"
  "tripshare_table (snd (create_trip s u trip_create now)) = tripshare_table s"
  "user_table (snd (create_trip s u trip_create now)) = user_table s"
proof -
  define trip where "trip = \<lparr>Trip_id = next_id (map Trip_id (trip_table s)),
                  Trip_name = TripCreate_name trip_create,
                  Trip_owner_id = User_id u,
                  Trip_start_date = TripCreate_start_date trip_create,
                  Trip_end_date = TripCreate_end_date trip_create,
                  Trip_created_at = now\<rparr>"
  define s1 where "s1 = s\<lparr>trip_table := trip_table s @ [trip]\<rparr>"
  define r2 where "r2 = add_all_Flights s1 (Trip_id trip) (TripCreate_flights trip_create)"
  define r3 where "r3 = add_all_Hotels (snd r2) (Trip_id trip) (TripCreate_hotels trip_create)"
  have "create_trip s u trip_create now = (trip_to_read trip (fst r2) (fst r3) [], snd r3)"
    unfolding create_trip_def Let_def trip_def [symmetric] s1_def [symmetric]
    by (simp only: r2_def [symmetric] r3_def [symmetric] split_beta)
  then have res: "snd (create_trip s u trip_create now) = snd r3" by simp
  have t3: "trip_table (snd r3) = trip_table s1" "tripshare_table (snd r3) = tripshare_table s1"
    "user_table (snd r3) = user_table s1"
    unfolding r3_def r2_def by (simp_all add: add_all_Flights_tables add_all_Hotels_tables)
  show "trip_table (snd (create_trip s u trip_create now)) = trip_table s @ [trip]"
    "tripshare_table (snd (create_trip s u trip_create now)) = tripshare_table s"
    "user_table (snd (create_trip s u trip_create now)) = user_table s"
    unfolding res t3 by (simp_all add: s1_def)
qed

lemma store_inv_register:
  "store_inv s \<Longrightarrow> store_inv (snd (register get_password_hash s user_create now))"
  by (cases "select_User_by_email s (UserCreate_email user_create)")
     (simp_all add: register_def Let_def)

lemma store_inv_add_flight:
  "store_inv s \<Longrightarrow> store_inv (snd (add_flight s u trip_id flight))"
  by (cases "ensure_trip_access s (User_id u) trip_id"; cases "session_get_Trip s trip_id")
     (simp_all add: add_flight_def Let_def)

lemma store_inv_add_hotel:
  "store_inv s \<Longrightarrow> store_inv (snd (add_hotel s u trip_id hotel))"
  by (cases "ensure_trip_access s (User_id u) trip_id"; cases "session_get_Trip s trip_id")
     (simp_all add: add_hotel_def Let_def)

lemma store_inv_create_trip:
  assumes "store_inv s"
  shows "store_inv (snd (create_trip s u trip_create now))"
proof -
  let ?n = "next_id (map Trip_id (trip_table s))"
  let ?s' = "snd (create_trip s u trip_create now)"
  have pk: "primary_keys s" and ok: "shares_ok s"
    using assms by (simp_all add: store_inv_def)
  have fresh: "?n \<notin> Trip_id ` set (trip_table s)"
    using next_id_fresh [of "map Trip_id (trip_table s)"] by simp
  have ref: "TripShare_trip_id sh \<noteq> ?n" if "sh \<in> set (tripshare_table s)" for sh
    using ok fresh that unfolding shares_ok_iff by metis
  have "primary_keys ?s'"
    using pk fresh by (simp add: primary_keys_def create_trip_tables)
  moreover have "shares_ok ?s'"
    unfolding shares_ok_iff
  proof (intro ballI conjI impI)
    fix sh assume sh: "sh \<in> set (tripshare_table ?s')"
    then have sh': "sh \<in> set (tripshare_table s)" by (simp add: create_trip_tables)
    with ok have "TripShare_trip_id sh \<in> Trip_id ` set (trip_table s)"
      unfolding shares_ok_iff by blast
    then show "TripShare_trip_id sh \<in> Trip_id ` set (trip_table ?s')"
      by (auto simp: create_trip_tables)
    fix t assume t: "t \<in> set (trip_table ?s')" and eq: "Trip_id t = TripShare_trip_id sh"
    from t eq ref [OF sh'] have "t \<in> set (trip_table s)"
      by (auto simp: create_trip_tables)
    with ok sh' eq show "Trip_owner_id t \<noteq> TripShare_user_id sh"
      unfolding shares_ok_iff by blast
  qed
  ultimately show ?thesis by (simp add: store_inv_def)
qed

lemma store_inv_share_trip:
  assumes "store_inv s"
  shows "store_inv (snd (share_trip s u trip_id share_request now))"
proof (cases "session_get_Trip s trip_id")
  case None
  with assms show ?thesis by (simp add: share_trip_def)
next
  case (Some trip)
  note trip = this
  have tid: "Trip_id trip = trip_id" and tin: "trip \<in> set (trip_table s)"
    using session_get_Trip_Some [OF trip] by simp_all
  show ?thesis
  proof (cases "Trip_owner_id trip \<noteq> User_id u")
    case True
    with assms trip show ?thesis by (simp add: share_trip_def)
  next
    case False
    then have own: "Trip_owner_id trip = User_id u" by simp
    show ?thesis
    proof (cases "select_User_by_email s (ShareRequest_email share_request)")
      case None
      with assms trip own show ?thesis by (simp add: share_trip_def)
    next
      case (Some target)
      note target = this
      show ?thesis
      proof (cases "User_id target = User_id u")
        case True
        with assms trip own target show ?thesis by (simp add: share_trip_def)
      next
        case False
        note other = this
        show ?thesis
        proof (cases "select_TripShare s trip_id (User_id target)")
          case (Some existing)
          with assms trip own target other show ?thesis by (simp add: share_trip_def)
        next
          case None
          then have nokey: "(trip_id, User_id target) \<notin> TripShare_key ` set (tripshare_table s)"
            by (auto simp: select_TripShare_def find_eq_None TripShare_key_def)
          have uniq: "\<forall>t\<in>set (trip_table s). Trip_id t = trip_id \<longrightarrow> t = trip"
            using assms tin tid
            by (auto simp: store_inv_def primary_keys_def distinct_map inj_on_def)
          have res: "snd (share_trip s u trip_id share_request now) =
              s\<lparr>tripshare_table := tripshare_table s @
                 [\<lparr>TripShare_trip_id = trip_id, TripShare_user_id = User_id target,
                   TripShare_created_at = now\<rparr>]\<rparr>"
            using trip own target other None by (simp add: share_trip_def Let_def)
          have pk: "primary_keys s" and ok: "shares_ok s"
            using assms by (simp_all add: store_inv_def)
          have "primary_keys (snd (share_trip s u trip_id share_request now))"
            unfolding res using pk nokey by (simp add: primary_keys_def TripShare_key_def)
          moreover have "shares_ok (snd (share_trip s u trip_id share_request now))"
            unfolding res shares_ok_iff
          proof (intro ballI conjI impI)
            fix sh
            assume "sh \<in> set (tripshare_table (s\<lparr>tripshare_table := tripshare_table s @
                 [\<lparr>TripShare_trip_id = trip_id, TripShare_user_id = User_id target,
                   TripShare_created_at = now\<rparr>]\<rparr>))"
            then consider (old) "sh \<in> set (tripshare_table s)"
              | (new) "TripShare_trip_id sh = trip_id" "TripShare_user_id sh = User_id target"
              by auto
            note sh_cases = this
            show "TripShare_trip_id sh \<in> Trip_id ` set (trip_table (s\<lparr>tripshare_table :=
                 tripshare_table s @
                 [\<lparr>TripShare_trip_id = trip_id, TripShare_user_id = User_id target,
                   TripShare_created_at = now\<rparr>]\<rparr>))"
            proof (cases rule: sh_cases)
              case old
              with ok show ?thesis unfolding shares_ok_iff by simp
            next
              case new
              with tin tid show ?thesis by (auto simp: image_iff)
            qed
            fix t
            assume "t \<in> set (trip_table (s\<lparr>tripshare_table := tripshare_table s @
                 [\<lparr>TripShare_trip_id = trip_id, TripShare_user_id = User_id target,
                   TripShare_created_at = now\<rparr>]\<rparr>))"
              and eq: "Trip_id t = TripShare_trip_id sh"
            then have t: "t \<in> set (trip_table s)" by simp
            show "Trip_owner_id t \<noteq> TripShare_user_id sh"
            proof (cases rule: sh_cases)
              case old
              with ok t eq show ?thesis unfolding shares_ok_iff by blast
            next
              case new
              with uniq t eq have "t = trip" by simp
              with own other new show ?thesis by simp
            qed
          qed
          ultimately show ?thesis by (simp add: store_inv_def)
        qed
      qed
    qed
  qed
qed

lemma store_inv_empty: "store_inv empty_store"
  by (simp add: store_inv_def primary_keys_def shares_ok_def empty_store_def)

lemma reachable_store_inv: "reachable s \<Longrightarrow> store_inv s"
  by (induction rule: reachable.induct)
     (simp_all add: store_inv_empty store_inv_register store_inv_create_trip
        store_inv_share_trip store_inv_add_flight store_inv_add_hotel)

lemma reachable_primary_keys: "reachable s \<Longrightarrow> primary_keys s"
  using reachable_store_inv by (simp add: store_inv_def)

text \<open>
  C3. In every store reachable from the empty store by requests, the share
  table has at most one row for a pair of trip id and user id, and no share row
  has as its user the owner of a trip with the row's trip id.
\<close>

theorem reachable_shares_unique_and_not_owner:
  assumes "reachable s"
  shows "distinct (map (\<lambda>sh. (TripShare_trip_id sh, TripShare_user_id sh)) (tripshare_table s))
       \<and> (\<forall>sh\<in>set (tripshare_table s). \<forall>t\<in>set (trip_table s).
             Trip_id t = TripShare_trip_id sh \<longrightarrow> TripShare_user_id sh \<noteq> Trip_owner_id t)"
proof -
  have inv: "store_inv s" using assms by (rule reachable_store_inv)
  have keys: "(\<lambda>sh. (TripShare_trip_id sh, TripShare_user_id sh)) = TripShare_key"
    by (rule ext) (simp add: TripShare_key_def)
  from inv have "distinct (map TripShare_key (tripshare_table s))"
    by (simp add: store_inv_def primary_keys_def)
  moreover from inv have "\<forall>sh\<in>set (tripshare_table s). \<forall>t\<in>set (trip_table s).
             Trip_id t = TripShare_trip_id sh \<longrightarrow> TripShare_user_id sh \<noteq> Trip_owner_id t"
    unfolding store_inv_def shares_ok_iff by metis
  ultimately show ?thesis unfolding keys by simp
qed

theorem reachable_shares_unique_and_not_owner_witness:
  "reachable store_shared
   \<and> tripshare_table store_shared
       = [\<lparr>TripShare_trip_id = 1, TripShare_user_id = 2, TripShare_created_at = 104\<rparr>]
   \<and> trip_table store_shared = [paris]
   \<and> distinct (map (\<lambda>sh. (TripShare_trip_id sh, TripShare_user_id sh))
        (tripshare_table store_shared))
   \<and> TripShare_user_id (hd (tripshare_table store_shared)) \<noteq> Trip_owner_id paris"
  using reachable_shares_unique_and_not_owner [OF reachable_store_shared] reachable_store_shared
  by (simp add: store_shared_eq)


section \<open>Sharing twice\<close>

lemma find_snoc:
  "find P (xs @ [x]) = (case find P xs of None \<Rightarrow> (if P x then Some x else None) | Some y \<Rightarrow> Some y)"
  by (induction xs) simp_all

lemma distinct_key_count:
  "distinct (map f xs) \<Longrightarrow> x \<in> set xs \<Longrightarrow> length (filter (\<lambda>y. f y = f x) xs) = 1"
proof (induction xs)
  case Nil
  then show ?case by simp
next
  case (Cons a xs)
  show ?case
  proof (cases "f a = f x")
    case True
    with Cons.prems have "\<forall>y\<in>set xs. f y \<noteq> f x" by (auto simp: image_iff)
    then have "filter (\<lambda>y. f y = f x) xs = []" by (simp add: filter_empty_conv)
    with True show ?thesis by simp
  next
    case False
    with Cons show ?thesis by auto
  qed
qed

text \<open>
  C4. In a store that respects the primary keys, let the requester own the trip
  of the request and let the email of the request be the one of another stored
  user \<open>v\<close>. Then \<^verbatim>\<open>share_trip\<close> returns, a second call with the same request
  returns too (status 204) and leaves the store of the first call as it is, and
  the share table then has exactly one row for the trip and \<open>v\<close>.
\<close>

theorem share_twice_idempotent:
  assumes pk: "primary_keys s"
      and trip: "session_get_Trip s trip_id = Some t"
      and own: "Trip_owner_id t = User_id owner"
      and target: "select_User_by_email s (ShareRequest_email share_request) = Some v"
      and other: "User_id v \<noteq> User_id owner"
  shows "fst (share_trip s owner trip_id share_request now) = Inr ()
       \<and> share_trip (snd (share_trip s owner trip_id share_request now)) owner trip_id
            share_request now'
          = (Inr (), snd (share_trip s owner trip_id share_request now))
       \<and> response_status HTTP_204_NO_CONTENT
            (fst (share_trip (snd (share_trip s owner trip_id share_request now)) owner trip_id
               share_request now')) = 204
       \<and> length (filter (\<lambda>sh. TripShare_trip_id sh = Trip_id t
                              \<and> TripShare_user_id sh = User_id v)
            (tripshare_table
               (snd (share_trip (snd (share_trip s owner trip_id share_request now)) owner
                  trip_id share_request now')))) = 1"
proof -
  have tid: "Trip_id t = trip_id" using session_get_Trip_Some [OF trip] by simp
  let ?P = "\<lambda>sh. TripShare_trip_id sh = trip_id \<and> TripShare_user_id sh = User_id v"
  have P: "?P = (\<lambda>sh. TripShare_key sh = (trip_id, User_id v))"
    by (rule ext) (simp add: TripShare_key_def)
  show ?thesis
  proof (cases "select_TripShare s trip_id (User_id v)")
    case (Some existing)
    have first: "share_trip s owner trip_id share_request now = (Inr (), s)"
      using trip own target other Some by (simp add: share_trip_def)
    have second: "share_trip s owner trip_id share_request now' = (Inr (), s)"
      using trip own target other Some by (simp add: share_trip_def)
    from Some have ex: "existing \<in> set (tripshare_table s)"
      and key: "TripShare_key existing = (trip_id, User_id v)"
      unfolding select_TripShare_def by (auto dest: find_Some_holds simp: TripShare_key_def)
    from pk have "distinct (map TripShare_key (tripshare_table s))"
      by (simp add: primary_keys_def)
    from distinct_key_count [OF this ex]
    have "length (filter ?P (tripshare_table s)) = 1" unfolding P key .
    then show ?thesis
      by (simp add: first second tid response_status_def HTTP_204_NO_CONTENT_def)
  next
    case None
    define share where "share = \<lparr>TripShare_trip_id = trip_id, TripShare_user_id = User_id v,
      TripShare_created_at = now\<rparr>"
    define s1 where "s1 = s\<lparr>tripshare_table := tripshare_table s @ [share]\<rparr>"
    have first: "share_trip s owner trip_id share_request now = (Inr (), s1)"
      using trip own target other None by (simp add: share_trip_def Let_def s1_def share_def)
    have trip1: "session_get_Trip s1 trip_id = Some t"
      using trip by (simp add: session_get_Trip_def s1_def)
    have target1: "select_User_by_email s1 (ShareRequest_email share_request) = Some v"
      using target by (simp add: select_User_by_email_def s1_def)
    have found: "select_TripShare s1 trip_id (User_id v) = Some share"
      using None by (simp add: select_TripShare_def s1_def find_snoc share_def)
    have second: "share_trip s1 owner trip_id share_request now' = (Inr (), s1)"
      using trip1 own target1 other found by (simp add: share_trip_def)
    from None have "filter ?P (tripshare_table s) = []"
      by (simp add: select_TripShare_def find_eq_None filter_empty_conv)
    then have "length (filter ?P (tripshare_table s1)) = 1"
      by (simp add: s1_def share_def)
    then show ?thesis
      by (simp add: first second tid response_status_def HTTP_204_NO_CONTENT_def)
  qed
qed

theorem share_twice_idempotent_witness:
  "primary_keys store_trip
   \<and> session_get_Trip store_trip 1 = Some paris
   \<and> Trip_owner_id paris = User_id alice
   \<and> select_User_by_email store_trip
        (ShareRequest_email \<lparr>ShareRequest_email = ''bob@example.com''\<rparr>) = Some bob
   \<and> User_id bob \<noteq> User_id alice
   \<and> share_trip store_trip alice 1 \<lparr>ShareRequest_email = ''bob@example.com''\<rparr> 104
       = (Inr (), store_shared)
   \<and> share_trip store_shared alice 1 \<lparr>ShareRequest_email = ''bob@example.com''\<rparr> 105
       = (Inr (), store_shared)
   \<and> length (filter (\<lambda>sh. TripShare_trip_id sh = Trip_id paris
                          \<and> TripShare_user_id sh = User_id bob)
        (tripshare_table store_shared)) = 1"
proof -
  let ?req = "\<lparr>ShareRequest_email = ''bob@example.com''\<rparr>"
  have h1: "primary_keys store_trip"
    by (simp add: primary_keys_def store_trip_eq)
  have h2: "session_get_Trip store_trip 1 = Some paris"
    by (simp add: session_get_Trip_def store_trip_eq)
  have h3: "Trip_owner_id paris = User_id alice" by simp
  have h4: "select_User_by_email store_trip (ShareRequest_email ?req) = Some bob"
    by (simp add: select_User_by_email_def store_trip_eq)
  have h5: "User_id bob \<noteq> User_id alice" by simp
  have st: "snd (share_trip store_trip alice 1 ?req 104) = store_shared"
    by (simp add: store_shared_def)
  from share_twice_idempotent [OF h1 h2 h3 h4 h5, of 104 105] h1 h2 h3 h4 h5
  show ?thesis by (auto simp: st prod_eq_iff)
qed


section \<open>Listing the trips of a user\<close>

lemma TripRead_id_read_trip [simp]: "TripRead_id (read_trip s t) = Trip_id t"
  by (simp add: read_trip_def trip_to_read_def)

lemma list_trips_eq:
  "list_trips s u =
     map (read_trip s) (filter (owned_by u) (trip_table s))
     @ map (read_trip s) (filter (\<lambda>t. \<not> owned_by u t \<and> shared_to s u t) (trip_table s))"
proof -
  define ids where "ids = map TripShare_trip_id
            (filter (\<lambda>sh. TripShare_user_id sh = User_id u) (tripshare_table s))"
  have in_ids: "Trip_id t \<in> set ids \<longleftrightarrow> shared_to s u t" for t
    by (force simp: ids_def shared_to_def list_ex_iff)
  have shared: "(if ids \<noteq> [] then filter (\<lambda>t. Trip_id t \<in> set ids) (trip_table s) else [])
      = filter (shared_to s u) (trip_table s)"
  proof -
    have "shared_to s u = (\<lambda>t. Trip_id t \<in> set ids)"
      by (rule ext) (simp add: in_ids)
    then show ?thesis by (cases "ids = []") simp_all
  qed
  have owned: "filter (\<lambda>t. Trip_owner_id t = User_id u) (trip_table s)
      = filter (owned_by u) (trip_table s)"
    by (rule filter_cong) (simp_all add: owned_by_def)
  have rest: "filter (\<lambda>trip. trip \<notin> set (filter (owned_by u) (trip_table s)))
        (filter (shared_to s u) (trip_table s))
      = filter (\<lambda>t. \<not> owned_by u t \<and> shared_to s u t) (trip_table s)"
    unfolding filter_filter by (rule filter_cong) auto
  show ?thesis
    unfolding list_trips_def Let_def ids_def [symmetric] shared owned rest by simp
qed

text \<open>
  C5. In a store that respects the primary keys, \<^verbatim>\<open>GET /trips\<close> returns the views
  of the trips the user owns, in table order, followed by the views of the
  trips shared to the user that the user does not own; its entries are exactly
  the views of the trips owned by or shared to the user, and no two entries
  have the same trip id.
\<close>

theorem list_trips_owned_then_shared:
  assumes "primary_keys s"
  shows "list_trips s u =
           map (read_trip s) (filter (owned_by u) (trip_table s))
           @ map (read_trip s)
               (filter (\<lambda>t. \<not> owned_by u t \<and> shared_to s u t) (trip_table s))
       \<and> set (list_trips s u)
           = read_trip s ` {t \<in> set (trip_table s). owned_by u t \<or> shared_to s u t}
       \<and> set (map TripRead_id (list_trips s u))
           = Trip_id ` {t \<in> set (trip_table s). owned_by u t \<or> shared_to s u t}
       \<and> distinct (map TripRead_id (list_trips s u))"
proof -
  let ?own = "filter (owned_by u) (trip_table s)"
  let ?sh = "filter (\<lambda>t. \<not> owned_by u t \<and> shared_to s u t) (trip_table s)"
  have eq: "list_trips s u = map (read_trip s) (?own @ ?sh)"
    by (simp add: list_trips_eq)
  have sets: "set (?own @ ?sh) = {t \<in> set (trip_table s). owned_by u t \<or> shared_to s u t}"
    by auto
  have ids: "map TripRead_id (list_trips s u) = map Trip_id (?own @ ?sh)"
    unfolding eq by (simp add: comp_def)
  from assms have d: "distinct (map Trip_id (trip_table s))"
    by (simp add: primary_keys_def)
  then have inj: "inj_on Trip_id (set (trip_table s))" and dt: "distinct (trip_table s)"
    by (simp_all add: distinct_map)
  have "distinct (?own @ ?sh)" using dt by auto
  moreover have "inj_on Trip_id (set (?own @ ?sh))"
    by (rule inj_on_subset [OF inj]) auto
  ultimately have dist: "distinct (map Trip_id (?own @ ?sh))"
    by (simp only: distinct_map)
  have c2: "set (list_trips s u)
           = read_trip s ` {t \<in> set (trip_table s). owned_by u t \<or> shared_to s u t}"
    unfolding eq set_map sets ..
  have c3: "set (map TripRead_id (list_trips s u))
           = Trip_id ` {t \<in> set (trip_table s). owned_by u t \<or> shared_to s u t}"
    unfolding ids set_map sets ..
  from list_trips_eq c2 c3 dist show ?thesis unfolding ids by blast
qed

theorem list_trips_owned_then_shared_witness:
  "primary_keys store_rome
   \<and> list_trips store_rome bob = [read_trip store_rome rome, read_trip store_rome paris]
   \<and> map TripRead_id (list_trips store_rome bob) = [2, 1]
   \<and> list_trips store_rome alice = [read_trip store_rome paris]
   \<and> list_trips store_rome carol = []"
proof -
  have pk: "primary_keys store_rome"
    by (simp add: primary_keys_def store_rome_eq TripShare_key_def paris_def rome_def)
  have t: "trip_table store_rome = [paris, rome]" by (simp add: store_rome_eq)
  have o: "owned_by bob rome" "\<not> owned_by bob paris" "owned_by alice paris"
    "\<not> owned_by alice rome" "\<not> owned_by carol paris" "\<not> owned_by carol rome"
    by (simp_all add: owned_by_def rome_def)
  have sh: "shared_to store_rome bob paris" "\<not> shared_to store_rome alice rome"
    "\<not> shared_to store_rome carol paris" "\<not> shared_to store_rome carol rome"
    by (simp_all add: shared_to_def store_rome_eq rome_def)
  have rid: "Trip_id rome = 2" by (simp add: rome_def)
  from list_trips_owned_then_shared [OF pk, of bob]
    list_trips_owned_then_shared [OF pk, of alice]
    list_trips_owned_then_shared [OF pk, of carol] pk
  show ?thesis by (simp add: t o sh rid)
qed


section \<open>The view of a trip\<close>

lemma read_trip_eq:
  "read_trip s t =
     \<lparr>TripRead_name = Trip_name t,
      TripRead_start_date = Trip_start_date t,
      TripRead_end_date = Trip_end_date t,
      TripRead_id = Trip_id t,
      TripRead_owner_id = Trip_owner_id t,
      TripRead_flights =
        map to_FlightRead (filter (\<lambda>f. Flight_trip_id f = Trip_id t) (flight_table s)),
      TripRead_hotels =
        map to_HotelRead (filter (\<lambda>h. Hotel_trip_id h = Trip_id t) (hotel_table s)),
      TripRead_shared_with_user_ids =
        map TripShare_user_id
          (filter (\<lambda>sh. TripShare_trip_id sh = Trip_id t) (tripshare_table s))\<rparr>"
  by (simp add: read_trip_def trip_to_read_def fetch_flights_def fetch_hotels_def
      fetch_share_ids_def)

lemma has_access_iff:
  "session_get_Trip s trip_id = Some t \<Longrightarrow>
   (Trip_owner_id t = User_id u \<or> user_has_access s (User_id u) trip_id)
     \<longleftrightarrow> (owned_by u t \<or> shared_to s u t)"
  by (auto simp: owned_by_def shared_to_def list_ex_iff user_has_access_iff
      dest: session_get_Trip_Some)

text \<open>
  C6. For a trip the requester may read (the requester owns it or it is shared
  to the requester), \<^verbatim>\<open>GET /trips/{id}\<close> returns the view of the trip, and
  \<^verbatim>\<open>POST /trips/{id}/flights\<close> and \<^verbatim>\<open>POST /trips/{id}/hotels\<close> return the view
  of the trip in the store they leave. The view of a trip has the id, name,
  owner id, start date and end date of the trip, the flights of the flight
  table whose \<^verbatim>\<open>trip_id\<close> is the id of the trip, the hotels of the hotel table
  whose \<^verbatim>\<open>trip_id\<close> is the id of the trip, and the user ids of the share rows
  whose \<^verbatim>\<open>trip_id\<close> is the id of the trip, each in table order.
\<close>

theorem trip_view_contents:
  assumes trip: "session_get_Trip s trip_id = Some t"
      and access: "owned_by u t \<or> shared_to s u t"
  shows "get_trip s u trip_id = Inr (read_trip s t)
       \<and> fst (add_flight s u trip_id flight)
           = Inr (read_trip (snd (add_flight s u trip_id flight)) t)
       \<and> fst (add_hotel s u trip_id hotel)
           = Inr (read_trip (snd (add_hotel s u trip_id hotel)) t)
       \<and> read_trip s t =
           \<lparr>TripRead_name = Trip_name t,
            TripRead_start_date = Trip_start_date t,
            TripRead_end_date = Trip_end_date t,
            TripRead_id = Trip_id t,
            TripRead_owner_id = Trip_owner_id t,
            TripRead_flights =
              map to_FlightRead
                (filter (\<lambda>f. Flight_trip_id f = Trip_id t) (flight_table s)),
            TripRead_hotels =
              map to_HotelRead (filter (\<lambda>h. Hotel_trip_id h = Trip_id t) (hotel_table s)),
            TripRead_shared_with_user_ids =
              map TripShare_user_id
                (filter (\<lambda>sh. TripShare_trip_id sh = Trip_id t) (tripshare_table s))\<rparr>
       \<and> set (TripRead_shared_with_user_ids (read_trip s t))
           = {uid. \<exists>sh\<in>set (tripshare_table s).
                     TripShare_trip_id sh = Trip_id t \<and> TripShare_user_id sh = uid}"
proof -
  have tid: "Trip_id t = trip_id" using session_get_Trip_Some [OF trip] by simp
  have acc: "Trip_owner_id t = User_id u \<or> user_has_access s (User_id u) trip_id"
    using has_access_iff [OF trip] access by simp
  have g: "get_trip s u trip_id = Inr (read_trip s t)"
    using trip acc by (auto simp: get_trip_def read_trip_def tid)
  have ens: "ensure_trip_access s (User_id u) trip_id = Inr ()"
    using trip acc by (auto simp: ensure_trip_access_def)
  have f: "add_flight s u trip_id flight =
      (Inr (read_trip (s\<lparr>flight_table := flight_table s @ [new_Flight s trip_id flight]\<rparr>) t),
       s\<lparr>flight_table := flight_table s @ [new_Flight s trip_id flight]\<rparr>)"
    using trip by (simp add: add_flight_def ens Let_def read_trip_def tid)
  have h: "add_hotel s u trip_id hotel =
      (Inr (read_trip (s\<lparr>hotel_table := hotel_table s @ [new_Hotel s trip_id hotel]\<rparr>) t),
       s\<lparr>hotel_table := hotel_table s @ [new_Hotel s trip_id hotel]\<rparr>)"
    using trip by (simp add: add_hotel_def ens Let_def read_trip_def tid)
  have ids: "set (TripRead_shared_with_user_ids (read_trip s t))
           = {uid. \<exists>sh\<in>set (tripshare_table s).
                     TripShare_trip_id sh = Trip_id t \<and> TripShare_user_id sh = uid}"
    by (auto simp: read_trip_eq)
  show ?thesis
    using g ids read_trip_eq [of s t] by (simp only: f h fst_conv snd_conv simp_thms)
qed

theorem trip_view_contents_witness:
  "session_get_Trip store_shared 1 = Some paris
   \<and> (owned_by bob paris \<or> shared_to store_shared bob paris)
   \<and> get_trip store_shared bob 1
       = Inr \<lparr>TripRead_name = ''Paris'', TripRead_start_date = Some 20,
              TripRead_end_date = None, TripRead_id = 1, TripRead_owner_id = 1,
              TripRead_flights = [\<lparr>FlightRead_id = 1, FlightRead_airline = ''AF'',
                 FlightRead_departure_airport = ''JFK'', FlightRead_arrival_airport = ''CDG'',
                 FlightRead_departure_time = 2000, FlightRead_arrival_time = 2400\<rparr>],
              TripRead_hotels = [\<lparr>HotelRead_id = 1, HotelRead_name = ''Ritz'',
                 HotelRead_city = ''Paris'', HotelRead_check_in = 20,
                 HotelRead_check_out = 25\<rparr>],
              TripRead_shared_with_user_ids = [2]\<rparr>"
proof -
  have h1: "session_get_Trip store_shared 1 = Some paris"
    by (simp add: session_get_Trip_def store_shared_eq)
  have h2: "owned_by bob paris \<or> shared_to store_shared bob paris"
    by (simp add: shared_to_def store_shared_eq)
  have v: "read_trip store_shared paris
       = \<lparr>TripRead_name = ''Paris'', TripRead_start_date = Some 20,
              TripRead_end_date = None, TripRead_id = 1, TripRead_owner_id = 1,
              TripRead_flights = [\<lparr>FlightRead_id = 1, FlightRead_airline = ''AF'',
                 FlightRead_departure_airport = ''JFK'', FlightRead_arrival_airport = ''CDG'',
                 FlightRead_departure_time = 2000, FlightRead_arrival_time = 2400\<rparr>],
              TripRead_hotels = [\<lparr>HotelRead_id = 1, HotelRead_name = ''Ritz'',
                 HotelRead_city = ''Paris'', HotelRead_check_in = 20,
                 HotelRead_check_out = 25\<rparr>],
              TripRead_shared_with_user_ids = [2]\<rparr>"
    by (simp add: read_trip_eq store_shared_eq to_FlightRead_def to_HotelRead_def
        paris_def paris_flight_def paris_hotel_def)
  from trip_view_contents [OF h1 h2] h1 h2 show ?thesis by (simp add: v)
qed


section \<open>The view returned on creation\<close>

text \<open>
  \<^verbatim>\<open>create_trip\<close> builds its view from the rows it has just inserted, not from
  the selects. In a reachable store the two agree: the new trip has a fresh id,
  so no older flight, hotel or share row references it.
\<close>

lemma rows_ok_iff:
  "rows_ok s \<longleftrightarrow>
     (\<forall>f\<in>set (flight_table s). Flight_trip_id f \<in> Trip_id ` set (trip_table s))
     \<and> (\<forall>h\<in>set (hotel_table s). Hotel_trip_id h \<in> Trip_id ` set (trip_table s))"
  unfolding rows_ok_def list_all_iff list_ex_iff by (simp add: image_iff) metis

lemma rows_ok_other_tables [simp]:
  "rows_ok (s\<lparr>user_table := us\<rparr>) = rows_ok s"
  "rows_ok (s\<lparr>tripshare_table := shs\<rparr>) = rows_ok s"
  by (simp_all add: rows_ok_def)

lemma add_all_Flights_rows:
  "flight_table (snd (add_all_Flights s trip_id fs))
     = flight_table s @ fst (add_all_Flights s trip_id fs)
   \<and> list_all (\<lambda>f. Flight_trip_id f = trip_id) (fst (add_all_Flights s trip_id fs))"
  by (induction fs arbitrary: s) (simp_all add: Let_def split_beta new_Flight_def)

lemma add_all_Hotels_rows:
  "hotel_table (snd (add_all_Hotels s trip_id hs))
     = hotel_table s @ fst (add_all_Hotels s trip_id hs)
   \<and> list_all (\<lambda>h. Hotel_trip_id h = trip_id) (fst (add_all_Hotels s trip_id hs))"
  by (induction hs arbitrary: s) (simp_all add: Let_def split_beta new_Hotel_def)

lemma create_trip_unfold:
  fixes s u trip_create now
  defines "trip \<equiv> \<lparr>Trip_id = next_id (map Trip_id (trip_table s)),
                  Trip_name = TripCreate_name trip_create,
                  Trip_owner_id = User_id u,
                  Trip_start_date = TripCreate_start_date trip_create,
                  Trip_end_date = TripCreate_end_date trip_create,
                  Trip_created_at = now\<rparr>"
  defines "r2 \<equiv> add_all_Flights (s\<lparr>trip_table := trip_table s @ [trip]\<rparr>) (Trip_id trip)
                   (TripCreate_flights trip_create)"
  defines "r3 \<equiv> add_all_Hotels (snd r2) (Trip_id trip) (TripCreate_hotels trip_create)"
  shows "create_trip s u trip_create now = (trip_to_read trip (fst r2) (fst r3) [], snd r3)"
  unfolding create_trip_def Let_def trip_def [symmetric]
  by (simp only: r2_def [symmetric] r3_def [symmetric] split_beta)


lemma rows_ok_register:
  "rows_ok s \<Longrightarrow> rows_ok (snd (register get_password_hash s user_create now))"
  by (cases "select_User_by_email s (UserCreate_email user_create)")
     (simp_all add: register_def Let_def)

lemma share_trip_tables:
  "trip_table (snd (share_trip s u trip_id share_request now)) = trip_table s
   \<and> flight_table (snd (share_trip s u trip_id share_request now)) = flight_table s
   \<and> hotel_table (snd (share_trip s u trip_id share_request now)) = hotel_table s"
  by (simp add: share_trip_def Let_def split: option.split)

lemma rows_ok_share_trip: "rows_ok s \<Longrightarrow> rows_ok (snd (share_trip s u trip_id share_request now))"
  using share_trip_tables [of s u trip_id share_request now]
  by (simp add: rows_ok_def)

lemma ensure_trip_access_Inr:
  "ensure_trip_access s user_id trip_id = Inr x \<Longrightarrow> \<exists>t. session_get_Trip s trip_id = Some t"
  by (cases "session_get_Trip s trip_id") (simp_all add: ensure_trip_access_def)

lemma rows_ok_add_flight:
  assumes "rows_ok s"
  shows "rows_ok (snd (add_flight s u trip_id flight))"
proof (cases "ensure_trip_access s (User_id u) trip_id")
  case (Inl e)
  with assms show ?thesis by (simp add: add_flight_def)
next
  case (Inr x)
  then obtain t where t: "session_get_Trip s trip_id = Some t"
    using ensure_trip_access_Inr by blast
  then have "trip_id \<in> Trip_id ` set (trip_table s)"
    using session_get_Trip_Some by blast
  with assms show ?thesis
    by (simp add: add_flight_def Inr t Let_def rows_ok_iff new_Flight_def)
qed

lemma rows_ok_add_hotel:
  assumes "rows_ok s"
  shows "rows_ok (snd (add_hotel s u trip_id hotel))"
proof (cases "ensure_trip_access s (User_id u) trip_id")
  case (Inl e)
  with assms show ?thesis by (simp add: add_hotel_def)
next
  case (Inr x)
  then obtain t where t: "session_get_Trip s trip_id = Some t"
    using ensure_trip_access_Inr by blast
  then have "trip_id \<in> Trip_id ` set (trip_table s)"
    using session_get_Trip_Some by blast
  with assms show ?thesis
    by (simp add: add_hotel_def Inr t Let_def rows_ok_iff new_Hotel_def)
qed

lemma create_trip_flight_hotel_tables:
  fixes s u trip_create now
  defines "trip_id \<equiv> next_id (map Trip_id (trip_table s))"
  shows "\<exists>flights hotels.
           flight_table (snd (create_trip s u trip_create now)) = flight_table s @ flights
         \<and> hotel_table (snd (create_trip s u trip_create now)) = hotel_table s @ hotels
         \<and> list_all (\<lambda>f. Flight_trip_id f = trip_id) flights
         \<and> list_all (\<lambda>h. Hotel_trip_id h = trip_id) hotels
         \<and> fst (create_trip s u trip_create now)
             = trip_to_read (last (trip_table (snd (create_trip s u trip_create now))))
                 flights hotels []"
proof -
  define trip where "trip = \<lparr>Trip_id = next_id (map Trip_id (trip_table s)),
                  Trip_name = TripCreate_name trip_create,
                  Trip_owner_id = User_id u,
                  Trip_start_date = TripCreate_start_date trip_create,
                  Trip_end_date = TripCreate_end_date trip_create,
                  Trip_created_at = now\<rparr>"
  define s1 where "s1 = s\<lparr>trip_table := trip_table s @ [trip]\<rparr>"
  define r2 where "r2 = add_all_Flights s1 (Trip_id trip) (TripCreate_flights trip_create)"
  define r3 where "r3 = add_all_Hotels (snd r2) (Trip_id trip) (TripCreate_hotels trip_create)"
  have res: "create_trip s u trip_create now = (trip_to_read trip (fst r2) (fst r3) [], snd r3)"
    unfolding trip_def s1_def r2_def r3_def by (rule create_trip_unfold)
  have id: "Trip_id trip = trip_id" by (simp add: trip_def trip_id_def)
  have f2: "flight_table (snd r2) = flight_table s1 @ fst r2"
    and a2: "list_all (\<lambda>f. Flight_trip_id f = trip_id) (fst r2)"
    using add_all_Flights_rows [of s1 "Trip_id trip" "TripCreate_flights trip_create"]
    by (simp_all add: r2_def id)
  have h3: "hotel_table (snd r3) = hotel_table (snd r2) @ fst r3"
    and a3: "list_all (\<lambda>h. Hotel_trip_id h = trip_id) (fst r3)"
    using add_all_Hotels_rows [of "snd r2" "Trip_id trip" "TripCreate_hotels trip_create"]
    by (simp_all add: r3_def id)
  have f3: "flight_table (snd r3) = flight_table s @ fst r2"
    unfolding r3_def using f2 by (simp add: add_all_Hotels_tables s1_def)
  have h3': "hotel_table (snd r3) = hotel_table s @ fst r3"
    using h3 by (simp add: r2_def add_all_Flights_tables s1_def)
  have t3: "trip_table (snd r3) = trip_table s @ [trip]"
    by (simp add: r3_def r2_def add_all_Flights_tables add_all_Hotels_tables s1_def)
  show ?thesis
    unfolding res fst_conv snd_conv
    by (rule exI [of _ "fst r2"], rule exI [of _ "fst r3"]) (simp add: f3 h3' a2 a3 t3)
qed

lemma rows_ok_create_trip:
  assumes "rows_ok s"
  shows "rows_ok (snd (create_trip s u trip_create now))"
proof -
  let ?s' = "snd (create_trip s u trip_create now)"
  let ?n = "next_id (map Trip_id (trip_table s))"
  obtain flights hotels where
    f: "flight_table ?s' = flight_table s @ flights"
    and h: "hotel_table ?s' = hotel_table s @ hotels"
    and af: "list_all (\<lambda>f. Flight_trip_id f = ?n) flights"
    and ah: "list_all (\<lambda>h. Hotel_trip_id h = ?n) hotels"
    using create_trip_flight_hotel_tables [of s u trip_create now] by blast
  have ids: "Trip_id ` set (trip_table ?s') = insert ?n (Trip_id ` set (trip_table s))"
    by (simp add: create_trip_tables)
  show ?thesis
    unfolding rows_ok_iff ids f h using assms af ah
    by (auto simp: rows_ok_iff list_all_iff)
qed

lemma reachable_rows_ok: "reachable s \<Longrightarrow> rows_ok s"
  by (induction rule: reachable.induct)
     (simp_all add: rows_ok_register rows_ok_create_trip rows_ok_share_trip
        rows_ok_add_flight rows_ok_add_hotel, simp add: rows_ok_def empty_store_def)

lemma create_trip_returns_view:
  assumes "reachable s"
  shows "fst (create_trip s u trip_create now)
           = read_trip (snd (create_trip s u trip_create now))
               (last (trip_table (snd (create_trip s u trip_create now))))"
proof -
  let ?s' = "snd (create_trip s u trip_create now)"
  let ?n = "next_id (map Trip_id (trip_table s))"
  obtain flights hotels where
    f: "flight_table ?s' = flight_table s @ flights"
    and h: "hotel_table ?s' = hotel_table s @ hotels"
    and af: "list_all (\<lambda>f. Flight_trip_id f = ?n) flights"
    and ah: "list_all (\<lambda>h. Hotel_trip_id h = ?n) hotels"
    and v: "fst (create_trip s u trip_create now)
             = trip_to_read (last (trip_table ?s')) flights hotels []"
    using create_trip_flight_hotel_tables [of s u trip_create now] by blast
  have fresh: "?n \<notin> Trip_id ` set (trip_table s)"
    using next_id_fresh [of "map Trip_id (trip_table s)"] by simp
  have id: "Trip_id (last (trip_table ?s')) = ?n" by (simp add: create_trip_tables)
  have rows: "rows_ok s" and ok: "shares_ok s"
    using assms reachable_rows_ok reachable_store_inv by (simp_all add: store_inv_def)
  have "filter (\<lambda>f. Flight_trip_id f = ?n) (flight_table s) = []"
    using rows fresh unfolding rows_ok_iff filter_empty_conv by metis
  moreover have "filter (\<lambda>f. Flight_trip_id f = ?n) flights = flights"
    using af by (simp add: list_all_iff)
  ultimately have ff: "fetch_flights ?s' ?n = flights"
    by (simp add: fetch_flights_def f)
  have "filter (\<lambda>h. Hotel_trip_id h = ?n) (hotel_table s) = []"
    using rows fresh unfolding rows_ok_iff filter_empty_conv by metis
  moreover have "filter (\<lambda>h. Hotel_trip_id h = ?n) hotels = hotels"
    using ah by (simp add: list_all_iff)
  ultimately have fh: "fetch_hotels ?s' ?n = hotels"
    by (simp add: fetch_hotels_def h)
  have "filter (\<lambda>sh. TripShare_trip_id sh = ?n) (tripshare_table s) = []"
    using ok fresh unfolding shares_ok_iff filter_empty_conv by metis
  then have fs: "fetch_share_ids ?s' ?n = []"
    by (simp add: fetch_share_ids_def create_trip_tables)
  show ?thesis unfolding v read_trip_def id ff fh fs ..
qed

end
